theory Spec2Isabelle
  imports Main
begin

section \<open>The move-only checker pass: data model\<close>

text \<open>
  The development embeds \<^verbatim>\<open>lib/SILOptimizer/Mandatory/MoveOnlyChecker.cpp\<close>: the struct
  \<^verbatim>\<open>MoveOnlyChecker\<close> with its two methods \<^verbatim>\<open>checkObjects\<close> and \<^verbatim>\<open>checkAddresses\<close>,
  and \<^verbatim>\<open>MoveOnlyCheckerPass::run\<close>. What \<^verbatim>\<open>run\<close> mutates in place (the function, the
  diagnostic emitter, the allocator) is passed explicitly and returned updated. The
  routines \<^verbatim>\<open>run\<close> calls but that live in other files of the compiler are the fields
  of the record \<open>collaborators\<close>: every theorem holds for whatever they compute.
\<close>

subsection \<open>The IR the pass reads and rewrites\<close>

datatype SILLocation = SILLocation nat

text \<open>
  The only instruction the pass itself builds is \<^verbatim>\<open>unreachable\<close>
  (\<^verbatim>\<open>SILBuilder::createUnreachable\<close>); every other instruction is carried with a name.
\<close>

datatype SILInstructionKind = UnreachableInst | OtherInst string

record SILInstruction =
  kind :: SILInstructionKind
  getLoc :: SILLocation

record SILBasicBlock =
  instructions :: "SILInstruction list"

text \<open>
  Of the linkage enumeration the pass names \<^verbatim>\<open>SILLinkage::Shared\<close> and
  \<^verbatim>\<open>SILLinkage::Private\<close>; the remaining linkages are kept apart by a name.
\<close>

datatype SILLinkage = Shared | Private | OtherLinkage string

text \<open>
  The pass asserts \<^verbatim>\<open>SILStage::Raw\<close>; the later stages are never told apart by it.
\<close>

datatype SILStage = Raw | Canonical | Lowered

record ASTContext =
  supportsMoveOnlyTypes :: bool

record SILModule =
  getStage :: SILStage
  isWholeModule :: bool

record SILFunction =
  getName :: string
  blocks :: "SILBasicBlock list"
  semanticsAttrs :: "string list"
  wasDeserializedCanonical :: bool
  getRefCount :: nat
  getLinkage :: SILLinkage
  getModule :: SILModule
  getASTContext :: ASTContext

text \<open>
  Modelled from the spec: the two string constants of \<^verbatim>\<open>swift/AST/SemanticAttrs.h\<close>,
  \<^verbatim>\<open>semantics::MOVEONLY_DELETE_IF_UNUSED\<close> and \<^verbatim>\<open>semantics::NO_MOVEONLY_DIAGNOSTICS\<close>,
  which \<^verbatim>\<open>MoveOnlyChecker.cpp\<close> only includes. They take the names the specification gives
  the two directives. A function has a directive when the string is among its semantics
  attributes.
\<close>

definition MOVEONLY_DELETE_IF_UNUSED :: string where
  "MOVEONLY_DELETE_IF_UNUSED = ''delete-if-unused''"

definition NO_MOVEONLY_DIAGNOSTICS :: string where
  "NO_MOVEONLY_DIAGNOSTICS = ''suppress-diagnostics''"

definition hasSemanticsAttr :: "SILFunction \<Rightarrow> string \<Rightarrow> bool" where
  "hasSemanticsAttr f attr = (attr \<in> set (semanticsAttrs f))"

subsection \<open>The diagnostic emitter\<close>

text \<open>
  Modelled from the spec: the class \<^verbatim>\<open>DiagnosticEmitter\<close> of \<^verbatim>\<open>MoveOnlyDiagnostics.h\<close>,
  which \<^verbatim>\<open>MoveOnlyChecker.cpp\<close> only includes. Following section 4.1 of the specification:
  recording a diagnostic appends it, no deduplication; the count is the number recorded;
  \<^verbatim>\<open>emittedDiagnostic\<close> is "count > 0 at call time".
\<close>

record DiagnosticEmitter =
  emitted :: "string list"

definition newDiagnosticEmitter :: DiagnosticEmitter where
  "newDiagnosticEmitter = \<lparr>emitted = []\<rparr>"

definition recordDiagnostic :: "string \<Rightarrow> DiagnosticEmitter \<Rightarrow> DiagnosticEmitter" where
  "recordDiagnostic d de = de\<lparr>emitted := emitted de @ [d]\<rparr>"

definition getDiagnosticCount :: "DiagnosticEmitter \<Rightarrow> nat" where
  "getDiagnosticCount de = length (emitted de)"

definition emittedDiagnostic :: "DiagnosticEmitter \<Rightarrow> bool" where
  "emittedDiagnostic de = (0 < getDiagnosticCount de)"

subsection \<open>What the pass does to the outside\<close>

datatype InvalidationKind = Instructions | FunctionBody

text \<open>
  The routines of other files that the pass calls, in the order of their first call in
  \<^verbatim>\<open>run\<close>.
\<close>

datatype callee =
    SearchForCandidateObjectMarks
  | ObjectCheckerCheck
  | SearchForCandidateAddressMarks
  | AddressCheckerCheck
  | EmitCheckerMissedCopyErrors
  | CleanupNonCopyableCopies

text \<open>
  The messages of the \<^verbatim>\<open>LLVM_DEBUG\<close> statements, with the values they print. An event
  \<open>Debug m\<close> records that the statement was reached; whether it prints depends on the build
  and on the debug options of the compiler.
\<close>

datatype debugMessage =
    DeletingUnusedFunction string
  | MarkedToBeDeletedButHasUses string
  | Visiting string
  | EmittingDiagnosticWhenChecking bool
  | NoMoveIntroducersFound

datatype event = Call callee | Debug debugMessage

datatype error =
    AssertionFailure string
  | DereferencedEndIterator

text \<open>
  What one run of the pass leaves behind: the function as rewritten in place, the
  diagnostics handed to the user, the \<^verbatim>\<open>invalidateAnalysis\<close> notifications sent to the
  pass manager (the change report), and the calls made and debug lines printed, in order.
\<close>

record PassResult =
  finalFn :: SILFunction
  diagnostics :: "string list"
  invalidations :: "InvalidationKind list"
  events :: "event list"

subsection \<open>The routines of other files\<close>

text \<open>
  Each routine receives what the C++ call passes (by value, by reference or through the
  pointers it holds) and returns its result together with the new value of everything it
  may have mutated. The worklist \<^verbatim>\<open>moveIntroducersToProcess\<close> is empty at each search and is
  an output of it. \<open>'dom\<close>, \<open>'poa\<close> and \<open>'alloc\<close> stand for \<^verbatim>\<open>DominanceInfo\<close>,
  \<^verbatim>\<open>PostOrderAnalysis\<close> and \<^verbatim>\<open>borrowtodestructure::IntervalMapAllocator\<close>.

  The record also holds the one build setting the pass depends on: \<open>assertionsEnabled\<close> is
  true when the compiler is built with \<^verbatim>\<open>assert\<close> compiled in, false when \<^verbatim>\<open>NDEBUG\<close> is
  defined and \<^verbatim>\<open>assert(e)\<close> expands to nothing.
\<close>

record ('dom, 'poa, 'alloc) collaborators =
  assertionsEnabled :: bool
  isPossiblyUsedExternally :: "SILLinkage \<Rightarrow> bool \<Rightarrow> bool"
  getDominanceInfo :: "SILFunction \<Rightarrow> 'dom"
  getPostOrderAnalysis :: "'poa"
  newIntervalMapAllocator :: "'alloc"
  searchForCandidateObjectMarkUnresolvedNonCopyableValueInsts ::
    "SILFunction \<Rightarrow> DiagnosticEmitter \<Rightarrow>
       bool \<times> SILInstruction list \<times> SILFunction \<times> DiagnosticEmitter"
  objectCheckerCheck ::
    "'dom \<Rightarrow> 'poa \<Rightarrow> SILInstruction list \<Rightarrow> SILFunction \<Rightarrow> DiagnosticEmitter \<Rightarrow> 'alloc \<Rightarrow>
       bool \<times> SILFunction \<times> DiagnosticEmitter \<times> 'alloc"
  searchForCandidateAddressMarkUnresolvedNonCopyableValueInsts ::
    "SILFunction \<Rightarrow> DiagnosticEmitter \<Rightarrow>
       bool \<times> SILInstruction list \<times> SILFunction \<times> DiagnosticEmitter"
  addressCheckerCheck ::
    "'dom \<Rightarrow> 'poa \<Rightarrow> SILInstruction list \<Rightarrow> SILFunction \<Rightarrow> DiagnosticEmitter \<Rightarrow> 'alloc \<Rightarrow>
       bool \<times> SILFunction \<times> DiagnosticEmitter \<times> 'alloc"
  emitCheckerMissedCopyOfNonCopyableTypeErrors ::
    "SILFunction \<Rightarrow> DiagnosticEmitter \<Rightarrow> SILFunction \<times> DiagnosticEmitter"
  cleanupNonCopyableCopiesAfterEmittingDiagnostic ::
    "SILFunction \<Rightarrow> bool \<times> SILFunction"

section \<open>The struct \<^verbatim>\<open>MoveOnlyChecker\<close>\<close>

text \<open>
  The fields of the struct, and \<open>checkerEvents\<close>: the calls made and debug lines printed
  so far.
\<close>

record ('dom, 'poa, 'alloc) MoveOnlyChecker =
  diagnosticEmitter :: DiagnosticEmitter
  fn :: SILFunction
  domTree :: 'dom
  poa :: 'poa
  madeChange :: bool
  allocator :: 'alloc
  checkerEvents :: "event list"

text \<open>The constructor: a fresh emitter, \<^verbatim>\<open>madeChange = false\<close>, a fresh allocator.\<close>

definition newMoveOnlyChecker ::
  "('dom, 'poa, 'alloc) collaborators \<Rightarrow> SILFunction \<Rightarrow> 'dom \<Rightarrow> 'poa \<Rightarrow> event list \<Rightarrow>
     ('dom, 'poa, 'alloc) MoveOnlyChecker" where
  "newMoveOnlyChecker env f dt po evs =
     \<lparr>diagnosticEmitter = newDiagnosticEmitter, fn = f, domTree = dt, poa = po,
      madeChange = False, allocator = newIntervalMapAllocator env, checkerEvents = evs\<rparr>"

text \<open>
  The two methods. Each reads the emitter's count, runs its search into a fresh worklist,
  prints whether the count moved, returns early on an empty worklist, and otherwise runs
  its checker and ORs the checker's result into \<^verbatim>\<open>madeChange\<close>. \<^verbatim>\<open>checkObjects\<close> also ORs
  the boolean of its search into \<^verbatim>\<open>madeChange\<close>; \<^verbatim>\<open>checkAddresses\<close> calls its search as a
  statement and drops the boolean.
\<close>

definition checkObjects ::
  "('dom, 'poa, 'alloc) collaborators \<Rightarrow> ('dom, 'poa, 'alloc) MoveOnlyChecker \<Rightarrow>
     ('dom, 'poa, 'alloc) MoveOnlyChecker" where
  "checkObjects env c =
     (let diagCount = getDiagnosticCount (diagnosticEmitter c) in
      case searchForCandidateObjectMarkUnresolvedNonCopyableValueInsts env
             (fn c) (diagnosticEmitter c) of
        (r, moveIntroducersToProcess, f1, de1) \<Rightarrow>
          (let c1 = c\<lparr>diagnosticEmitter := de1, fn := f1, madeChange := (madeChange c \<or> r),
                      checkerEvents := checkerEvents c @
                        [Call SearchForCandidateObjectMarks,
                         Debug (EmittingDiagnosticWhenChecking
                                  (diagCount \<noteq> getDiagnosticCount de1))]\<rparr> in
           if moveIntroducersToProcess = []
           then c1\<lparr>checkerEvents := checkerEvents c1 @ [Debug NoMoveIntroducersFound]\<rparr>
           else
             (case objectCheckerCheck env (domTree c1) (poa c1) moveIntroducersToProcess
                     (fn c1) (diagnosticEmitter c1) (allocator c1) of
                (r2, f2, de2, al2) \<Rightarrow>
                  c1\<lparr>diagnosticEmitter := de2, fn := f2,
                     madeChange := (madeChange c1 \<or> r2), allocator := al2,
                     checkerEvents := checkerEvents c1 @ [Call ObjectCheckerCheck]\<rparr>)))"

definition checkAddresses ::
  "('dom, 'poa, 'alloc) collaborators \<Rightarrow> ('dom, 'poa, 'alloc) MoveOnlyChecker \<Rightarrow>
     ('dom, 'poa, 'alloc) MoveOnlyChecker" where
  "checkAddresses env c =
     (let diagCount = getDiagnosticCount (diagnosticEmitter c) in
      case searchForCandidateAddressMarkUnresolvedNonCopyableValueInsts env
             (fn c) (diagnosticEmitter c) of
        (r, moveIntroducersToProcess, f1, de1) \<Rightarrow>
          (let c1 = c\<lparr>diagnosticEmitter := de1, fn := f1,
                      checkerEvents := checkerEvents c @
                        [Call SearchForCandidateAddressMarks,
                         Debug (EmittingDiagnosticWhenChecking
                                  (diagCount \<noteq> getDiagnosticCount de1))]\<rparr> in
           if moveIntroducersToProcess = []
           then c1\<lparr>checkerEvents := checkerEvents c1 @ [Debug NoMoveIntroducersFound]\<rparr>
           else
             (case addressCheckerCheck env (domTree c1) (poa c1) moveIntroducersToProcess
                     (fn c1) (diagnosticEmitter c1) (allocator c1) of
                (r2, f2, de2, al2) \<Rightarrow>
                  c1\<lparr>diagnosticEmitter := de2, fn := f2,
                     madeChange := (madeChange c1 \<or> r2), allocator := al2,
                     checkerEvents := checkerEvents c1 @ [Call AddressCheckerCheck]\<rparr>)))"

section \<open>\<^verbatim>\<open>MoveOnlyCheckerPass::run\<close>\<close>

subsection \<open>Deleting the body of an unused function\<close>

text \<open>
  The loop that removes all non-entry blocks: while the entry block has a successor in
  the block list, that successor is erased.
\<close>

fun eraseNonEntryBlocks :: "SILBasicBlock list \<Rightarrow> SILBasicBlock list" where
  "eraseNonEntryBlocks (entryBB # thisBB # bbs) = eraseNonEntryBlocks (entryBB # bbs)"
| "eraseNonEntryBlocks bbs = bbs"

definition eraseAllInstructions :: "SILBasicBlock \<Rightarrow> SILBasicBlock" where
  "eraseAllInstructions bb = bb\<lparr>instructions := []\<rparr>"

text \<open>A builder made from a block inserts at the end of that block.\<close>

definition createUnreachable :: "SILLocation \<Rightarrow> SILBasicBlock \<Rightarrow> SILBasicBlock" where
  "createUnreachable loc bb =
     bb\<lparr>instructions := instructions bb @ [\<lparr>kind = UnreachableInst, getLoc = loc\<rparr>]\<rparr>"

text \<open>
  The body of the inner \<^verbatim>\<open>if\<close>. \<^verbatim>\<open>std::next(fn->begin())\<close> on a function with no block and
  \<^verbatim>\<open>entryBB->begin()->getLoc()\<close> on an entry block with no instruction step past the end
  of a list: the C++ gives them no meaning, and they are an error here.
\<close>

definition deleteUnusedBody :: "SILFunction \<Rightarrow> event list \<Rightarrow> error + PassResult" where
  "deleteUnusedBody f evs =
     (case blocks f of
        [] \<Rightarrow> Inl DereferencedEndIterator
      | entryBB # bbs \<Rightarrow>
          (case eraseNonEntryBlocks (entryBB # bbs) of
             [] \<Rightarrow> Inl DereferencedEndIterator
           | entryBB1 # bbs1 \<Rightarrow>
               (case instructions entryBB1 of
                  [] \<Rightarrow> Inl DereferencedEndIterator
                | i # is \<Rightarrow>
                    (let loc = getLoc i;
                         entryBB2 = createUnreachable loc (eraseAllInstructions entryBB1);
                         f1 = f\<lparr>blocks := entryBB2 # bbs1\<rparr>;
                         f2 = (if getLinkage f1 = Shared then f1\<lparr>getLinkage := Private\<rparr>
                               else f1)
                     in Inr \<lparr>finalFn = f2, diagnostics = [],
                             invalidations = [FunctionBody],
                             events = evs @ [Debug (DeletingUnusedFunction (getName f))]\<rparr>))))"

subsection \<open>From the suppress-diagnostics directive to the end\<close>

text \<open>
  The part of \<^verbatim>\<open>run\<close> that follows the delete-if-unused block: the test of
  \<^verbatim>\<open>NO_MOVEONLY_DIAGNOSTICS\<close> with its early return, then the checker, the sweep for missed
  copies, and the cleanup. \<open>evs\<close> holds what was printed before. \<^verbatim>\<open>invalidateAnalysis\<close> is
  called with \<^verbatim>\<open>Instructions\<close> when the cleanup returned true (first path) or when
  \<^verbatim>\<open>madeChange\<close> is true at the end (second path).
\<close>

definition runDiagnostics ::
  "('dom, 'poa, 'alloc) collaborators \<Rightarrow> SILFunction \<Rightarrow> event list \<Rightarrow> PassResult" where
  "runDiagnostics env f evs =
     (if hasSemanticsAttr f NO_MOVEONLY_DIAGNOSTICS
      then
        (case cleanupNonCopyableCopiesAfterEmittingDiagnostic env f of
           (r, f1) \<Rightarrow>
             \<lparr>finalFn = f1, diagnostics = [],
              invalidations = (if r then [Instructions] else []),
              events = evs @ [Call CleanupNonCopyableCopies]\<rparr>)
      else
        (let checker0 = newMoveOnlyChecker env f (getDominanceInfo env f)
                          (getPostOrderAnalysis env) (evs @ [Debug (Visiting (getName f))]);
             checker1 = checkObjects env checker0;
             checker2 = checkAddresses env checker1;
             checker3 =
               (if \<not> emittedDiagnostic (diagnosticEmitter checker2)
                then
                  (case emitCheckerMissedCopyOfNonCopyableTypeErrors env
                          (fn checker2) (diagnosticEmitter checker2) of
                     (f3, de3) \<Rightarrow>
                       checker2\<lparr>diagnosticEmitter := de3, fn := f3,
                                checkerEvents := checkerEvents checker2 @
                                  [Call EmitCheckerMissedCopyErrors]\<rparr>)
                else checker2)
         in case cleanupNonCopyableCopiesAfterEmittingDiagnostic env (fn checker3) of
              (r, f4) \<Rightarrow>
                (let checker4 = checker3\<lparr>fn := f4, madeChange := (madeChange checker3 \<or> r),
                                         checkerEvents := checkerEvents checker3 @
                                           [Call CleanupNonCopyableCopies]\<rparr>
                 in \<lparr>finalFn = fn checker4,
                     diagnostics = emitted (diagnosticEmitter checker4),
                     invalidations = (if madeChange checker4 then [Instructions] else []),
                     events = checkerEvents checker4\<rparr>)))"

subsection \<open>The whole pass\<close>

text \<open>
  In a build with assertions, \<^verbatim>\<open>assert\<close> stops the program when its condition is false: the
  run ends with \<open>AssertionFailure\<close> and nothing else of the pass happens. In a build without
  them the statement is empty: the stage is not looked at and the pass goes on.
\<close>

definition run ::
  "('dom, 'poa, 'alloc) collaborators \<Rightarrow> SILFunction \<Rightarrow> error + PassResult" where
  "run env f =
     (if \<not> supportsMoveOnlyTypes (getASTContext f)
      then Inr \<lparr>finalFn = f, diagnostics = [], invalidations = [], events = []\<rparr>
      else if wasDeserializedCanonical f
      then Inr \<lparr>finalFn = f, diagnostics = [], invalidations = [], events = []\<rparr>
      else if assertionsEnabled env \<and> getStage (getModule f) \<noteq> Raw
      then Inl (AssertionFailure ''Should only run on Raw SIL'')
      else if hasSemanticsAttr f MOVEONLY_DELETE_IF_UNUSED
      then
        (if getRefCount f = 0 \<and>
            \<not> isPossiblyUsedExternally env (getLinkage f) (isWholeModule (getModule f))
         then deleteUnusedBody f []
         else Inr (runDiagnostics env f [Debug (MarkedToBeDeletedButHasUses (getName f))]))
      else Inr (runDiagnostics env f []))"

section \<open>Vocabulary of the properties\<close>

text \<open>The three entry conditions of \<^verbatim>\<open>run\<close>: both early returns not taken, the assertion true.\<close>

definition passesEntryGates :: "SILFunction \<Rightarrow> bool" where
  "passesEntryGates f =
     (supportsMoveOnlyTypes (getASTContext f) \<and> \<not> wasDeserializedCanonical f \<and>
      getStage (getModule f) = Raw)"

definition isUnused :: "('dom, 'poa, 'alloc) collaborators \<Rightarrow> SILFunction \<Rightarrow> bool" where
  "isUnused env f =
     (getRefCount f = 0 \<and>
      \<not> isPossiblyUsedExternally env (getLinkage f) (isWholeModule (getModule f)))"

definition takesDeleteFastPath ::
  "('dom, 'poa, 'alloc) collaborators \<Rightarrow> SILFunction \<Rightarrow> bool" where
  "takesDeleteFastPath env f = (hasSemanticsAttr f MOVEONLY_DELETE_IF_UNUSED \<and> isUnused env f)"

definition reachesNormalChecking ::
  "('dom, 'poa, 'alloc) collaborators \<Rightarrow> SILFunction \<Rightarrow> bool" where
  "reachesNormalChecking env f =
     (passesEntryGates f \<and> \<not> takesDeleteFastPath env f \<and>
      \<not> hasSemanticsAttr f NO_MOVEONLY_DIAGNOSTICS)"

text \<open>The calls among the events, in order.\<close>

fun calls :: "event list \<Rightarrow> callee list" where
  "calls [] = []"
| "calls (Call c # es) = c # calls es"
| "calls (Debug m # es) = calls es"

text \<open>What was printed before the checker is built, on the way to normal checking.\<close>

definition eventsBeforeChecking :: "SILFunction \<Rightarrow> event list" where
  "eventsBeforeChecking f =
     (if hasSemanticsAttr f MOVEONLY_DELETE_IF_UNUSED
      then [Debug (MarkedToBeDeletedButHasUses (getName f))] else []) @
     [Debug (Visiting (getName f))]"

text \<open>
  The checker struct after \<^verbatim>\<open>checker.checkObjects(); checker.checkAddresses();\<close> on a
  function that reached normal checking.
\<close>

definition checkerAfterPhases ::
  "('dom, 'poa, 'alloc) collaborators \<Rightarrow> SILFunction \<Rightarrow> ('dom, 'poa, 'alloc) MoveOnlyChecker"
  where
  "checkerAfterPhases env f =
     checkAddresses env (checkObjects env
       (newMoveOnlyChecker env f (getDominanceInfo env f) (getPostOrderAnalysis env)
          (eventsBeforeChecking f)))"

text \<open>
  The function and the change flag as they stand when the cleanup is called: after the
  phases and, when the emitter is still empty, after the sweep for missed copies.
\<close>

definition fnBeforeCleanup ::
  "('dom, 'poa, 'alloc) collaborators \<Rightarrow> SILFunction \<Rightarrow> SILFunction" where
  "fnBeforeCleanup env f =
     (let c = checkerAfterPhases env f in
      if emittedDiagnostic (diagnosticEmitter c) then fn c
      else fst (emitCheckerMissedCopyOfNonCopyableTypeErrors env (fn c) (diagnosticEmitter c)))"

text \<open>
  The same collaborators, with the boolean a candidate search returns replaced by \<open>b\<close>.
\<close>

definition withObjectSearchFlag ::
  "bool \<Rightarrow> ('dom, 'poa, 'alloc) collaborators \<Rightarrow> ('dom, 'poa, 'alloc) collaborators" where
  "withObjectSearchFlag b env =
     env\<lparr>searchForCandidateObjectMarkUnresolvedNonCopyableValueInsts :=
           (\<lambda>f de. (b, snd (searchForCandidateObjectMarkUnresolvedNonCopyableValueInsts
                              env f de)))\<rparr>"

definition withAddressSearchFlag ::
  "bool \<Rightarrow> ('dom, 'poa, 'alloc) collaborators \<Rightarrow> ('dom, 'poa, 'alloc) collaborators" where
  "withAddressSearchFlag b env =
     env\<lparr>searchForCandidateAddressMarkUnresolvedNonCopyableValueInsts :=
           (\<lambda>f de. (b, snd (searchForCandidateAddressMarkUnresolvedNonCopyableValueInsts
                              env f de)))\<rparr>"

section \<open>A concrete set of collaborators and concrete functions\<close>

text \<open>
  Small stand-ins for the routines of other files, used to run the pass on concrete
  functions. A copy is the instruction named \<open>copy_value\<close>, its explicit form
  \<open>explicit_copy_value\<close>; a mark is the instruction named \<open>mark_object\<close> or
  \<open>mark_address\<close>. A search collects the marks of its class, changes nothing, and emits
  one diagnostic exactly when the boolean it returns is true; a checker reports a copy when
  there is one; the cleanup makes every copy explicit and returns whether it changed the
  function. \<open>demoEnv b\<close> has \<open>b\<close> as the boolean of the object search, and is a build with
  assertions.
\<close>

definition isCopy :: "SILInstruction \<Rightarrow> bool" where
  "isCopy i = (kind i = OtherInst ''copy_value'')"

definition allInstructions :: "SILFunction \<Rightarrow> SILInstruction list" where
  "allInstructions f = concat (map instructions (blocks f))"

definition makeExplicit :: "SILInstruction \<Rightarrow> SILInstruction" where
  "makeExplicit i = (if isCopy i then i\<lparr>kind := OtherInst ''explicit_copy_value''\<rparr> else i)"

definition demoCleanup :: "SILFunction \<Rightarrow> bool \<times> SILFunction" where
  "demoCleanup f =
     (let f1 = f\<lparr>blocks := map (\<lambda>bb. bb\<lparr>instructions := map makeExplicit (instructions bb)\<rparr>)
                              (blocks f)\<rparr>
      in (f1 \<noteq> f, f1))"

definition demoSearch ::
  "string \<Rightarrow> bool \<Rightarrow> SILFunction \<Rightarrow> DiagnosticEmitter \<Rightarrow>
     bool \<times> SILInstruction list \<times> SILFunction \<times> DiagnosticEmitter" where
  "demoSearch mark b f de =
     (b, remdups (filter (\<lambda>i. kind i = OtherInst mark) (allInstructions f)), f,
      (if b then recordDiagnostic ''unanalyzable mark'' de else de))"

definition demoCheck ::
  "unit \<Rightarrow> unit \<Rightarrow> SILInstruction list \<Rightarrow> SILFunction \<Rightarrow> DiagnosticEmitter \<Rightarrow> unit \<Rightarrow>
     bool \<times> SILFunction \<times> DiagnosticEmitter \<times> unit" where
  "demoCheck dt po marks f de al =
     (False, f,
      (if filter isCopy (allInstructions f) = [] then de
       else recordDiagnostic ''copy of noncopyable value'' de), al)"

definition demoEmitMissed ::
  "SILFunction \<Rightarrow> DiagnosticEmitter \<Rightarrow> SILFunction \<times> DiagnosticEmitter" where
  "demoEmitMissed f de =
     (f, (if filter isCopy (allInstructions f) = [] then de
          else recordDiagnostic ''checker missed copy'' de))"

definition demoEnv :: "bool \<Rightarrow> (unit, unit, unit) collaborators" where
  "demoEnv b =
     \<lparr>assertionsEnabled = True,
      isPossiblyUsedExternally = (\<lambda>l w. l \<noteq> Shared \<and> l \<noteq> Private \<and> (l = OtherLinkage ''public'' \<or> \<not> w)),
      getDominanceInfo = (\<lambda>f. ()),
      getPostOrderAnalysis = (),
      newIntervalMapAllocator = (),
      searchForCandidateObjectMarkUnresolvedNonCopyableValueInsts = demoSearch ''mark_object'' b,
      objectCheckerCheck = demoCheck,
      searchForCandidateAddressMarkUnresolvedNonCopyableValueInsts = demoSearch ''mark_address'' False,
      addressCheckerCheck = demoCheck,
      emitCheckerMissedCopyOfNonCopyableTypeErrors = demoEmitMissed,
      cleanupNonCopyableCopiesAfterEmittingDiagnostic = demoCleanup\<rparr>"

text \<open>The same collaborators with a cleanup that changes nothing and returns false.\<close>

definition quietCleanup :: "SILFunction \<Rightarrow> bool \<times> SILFunction" where
  "quietCleanup f = (False, f)"

definition quietEnv :: "(unit, unit, unit) collaborators" where
  "quietEnv = (demoEnv False)\<lparr>cleanupNonCopyableCopiesAfterEmittingDiagnostic := quietCleanup\<rparr>"

definition inst :: "string \<Rightarrow> nat \<Rightarrow> SILInstruction" where
  "inst n l = \<lparr>kind = OtherInst n, getLoc = SILLocation l\<rparr>"

text \<open>
  A function of two blocks with one copy and no mark, given by its directives, its
  reference count and its linkage; the feature is on, the module is raw.
\<close>

definition demoFn :: "string list \<Rightarrow> nat \<Rightarrow> SILLinkage \<Rightarrow> SILFunction" where
  "demoFn attrs rc l =
     \<lparr>getName = ''f'',
      blocks = [\<lparr>instructions = [inst ''copy_value'' 7, inst ''br'' 8]\<rparr>,
                \<lparr>instructions = [inst ''return'' 9]\<rparr>],
      semanticsAttrs = attrs,
      wasDeserializedCanonical = False,
      getRefCount = rc,
      getLinkage = l,
      getModule = \<lparr>getStage = Raw, isWholeModule = True\<rparr>,
      getASTContext = \<lparr>supportsMoveOnlyTypes = True\<rparr>\<rparr>"

text \<open>The same function without a copy: nothing to diagnose, nothing to clean up.\<close>

definition cleanFn :: SILFunction where
  "cleanFn = (demoFn [] 1 Private)
     \<lparr>blocks := [\<lparr>instructions = [inst ''mark_object'' 7, inst ''return'' 8]\<rparr>]\<rparr>"

text \<open>A function with a mark and a copy: the object checker has something to report.\<close>

definition copyAfterMarkFn :: SILFunction where
  "copyAfterMarkFn = (demoFn [] 1 Private)
     \<lparr>blocks := [\<lparr>instructions = [inst ''mark_object'' 7, inst ''copy_value'' 8,
                                    inst ''return'' 9]\<rparr>]\<rparr>"

section \<open>The paths through \<^verbatim>\<open>run\<close>\<close>

lemma eraseNonEntryBlocks_entry: "eraseNonEntryBlocks (entryBB # bbs) = [entryBB]"
  by (induction bbs) simp_all

lemma deleteUnusedBody_entry:
  assumes "blocks f = entryBB # bbs" and "instructions entryBB = i # is"
  shows "deleteUnusedBody f evs =
    Inr \<lparr>finalFn = f\<lparr>blocks := [\<lparr>instructions = [\<lparr>kind = UnreachableInst, getLoc = getLoc i\<rparr>]\<rparr>],
                      getLinkage := (if getLinkage f = Shared then Private else getLinkage f)\<rparr>,
         diagnostics = [], invalidations = [FunctionBody],
         events = evs @ [Debug (DeletingUnusedFunction (getName f))]\<rparr>"
  using assms
  by (simp add: deleteUnusedBody_def eraseNonEntryBlocks_entry eraseAllInstructions_def
      createUnreachable_def Let_def)

lemma deleteUnusedBody_not_assertion: "deleteUnusedBody f evs \<noteq> Inl (AssertionFailure m)"
  by (simp add: deleteUnusedBody_def Let_def split: list.splits)

lemma run_delete_path:
  assumes "passesEntryGates f" and "takesDeleteFastPath env f"
  shows "run env f = deleteUnusedBody f []"
  using assms
  by (simp add: run_def passesEntryGates_def takesDeleteFastPath_def isUnused_def)

lemma run_continues:
  assumes "passesEntryGates f" and "\<not> takesDeleteFastPath env f"
  shows "run env f = Inr (runDiagnostics env f
           (if hasSemanticsAttr f MOVEONLY_DELETE_IF_UNUSED
            then [Debug (MarkedToBeDeletedButHasUses (getName f))] else []))"
  using assms
  by (auto simp: run_def passesEntryGates_def takesDeleteFastPath_def isUnused_def)

lemma runDiagnostics_suppressed:
  assumes "hasSemanticsAttr f NO_MOVEONLY_DIAGNOSTICS"
  shows "runDiagnostics env f evs =
     \<lparr>finalFn = snd (cleanupNonCopyableCopiesAfterEmittingDiagnostic env f),
      diagnostics = [],
      invalidations =
        (if fst (cleanupNonCopyableCopiesAfterEmittingDiagnostic env f)
         then [Instructions] else []),
      events = evs @ [Call CleanupNonCopyableCopies]\<rparr>"
  using assms by (simp add: runDiagnostics_def split: prod.splits)

lemma run_normal_checking:
  assumes "reachesNormalChecking env f"
  shows "run env f =
     Inr \<lparr>finalFn = snd (cleanupNonCopyableCopiesAfterEmittingDiagnostic env
                          (fnBeforeCleanup env f)),
          diagnostics =
            emitted
              (if emittedDiagnostic (diagnosticEmitter (checkerAfterPhases env f))
               then diagnosticEmitter (checkerAfterPhases env f)
               else snd (emitCheckerMissedCopyOfNonCopyableTypeErrors env
                           (fn (checkerAfterPhases env f))
                           (diagnosticEmitter (checkerAfterPhases env f)))),
          invalidations =
            (if madeChange (checkerAfterPhases env f) \<or>
                fst (cleanupNonCopyableCopiesAfterEmittingDiagnostic env
                       (fnBeforeCleanup env f))
             then [Instructions] else []),
          events =
            checkerEvents (checkerAfterPhases env f) @
            (if emittedDiagnostic (diagnosticEmitter (checkerAfterPhases env f))
             then [] else [Call EmitCheckerMissedCopyErrors]) @
            [Call CleanupNonCopyableCopies]\<rparr>"
proof -
  from assms have g: "passesEntryGates f" and d: "\<not> takesDeleteFastPath env f"
    and s: "\<not> hasSemanticsAttr f NO_MOVEONLY_DIAGNOSTICS"
    by (simp_all add: reachesNormalChecking_def)
  have "run env f = Inr (runDiagnostics env f
           (if hasSemanticsAttr f MOVEONLY_DELETE_IF_UNUSED
            then [Debug (MarkedToBeDeletedButHasUses (getName f))] else []))"
    using g d by (rule run_continues)
  then show ?thesis
    using s
    by (simp add: runDiagnostics_def checkerAfterPhases_def eventsBeforeChecking_def
        fnBeforeCleanup_def Let_def split: prod.splits)
qed

lemma checkObjects_no_late_call:
  assumes "e = Call EmitCheckerMissedCopyErrors \<or> e = Call CleanupNonCopyableCopies"
  shows "e \<in> set (checkerEvents (checkObjects env c)) \<longleftrightarrow> e \<in> set (checkerEvents c)"
  using assms by (auto simp: checkObjects_def Let_def split: prod.splits)

lemma checkAddresses_no_late_call:
  assumes "e = Call EmitCheckerMissedCopyErrors \<or> e = Call CleanupNonCopyableCopies"
  shows "e \<in> set (checkerEvents (checkAddresses env c)) \<longleftrightarrow> e \<in> set (checkerEvents c)"
  using assms by (auto simp: checkAddresses_def Let_def split: prod.splits)

lemma checkerAfterPhases_no_late_call:
  assumes "e = Call EmitCheckerMissedCopyErrors \<or> e = Call CleanupNonCopyableCopies"
  shows "e \<notin> set (checkerEvents (checkerAfterPhases env f))"
  using assms
  by (auto simp: checkerAfterPhases_def checkAddresses_no_late_call checkObjects_no_late_call
      newMoveOnlyChecker_def eventsBeforeChecking_def)

lemma checkObjects_events_prefix:
  "\<exists>es. checkerEvents (checkObjects env c) =
          checkerEvents c @ Call SearchForCandidateObjectMarks # es"
  by (simp add: checkObjects_def Let_def split: prod.splits)

lemma checkAddresses_events_prefix:
  "\<exists>es. checkerEvents (checkAddresses env c) = checkerEvents c @ es"
  by (simp add: checkAddresses_def Let_def split: prod.splits)

lemma checkerAfterPhases_events_prefix:
  "\<exists>es. checkerEvents (checkerAfterPhases env f) =
          eventsBeforeChecking f @ Call SearchForCandidateObjectMarks # es"
proof -
  let ?c0 = "newMoveOnlyChecker env f (getDominanceInfo env f) (getPostOrderAnalysis env)
               (eventsBeforeChecking f)"
  obtain es1 where e1: "checkerEvents (checkObjects env ?c0) =
      checkerEvents ?c0 @ Call SearchForCandidateObjectMarks # es1"
    using checkObjects_events_prefix by blast
  obtain es2 where e2: "checkerEvents (checkAddresses env (checkObjects env ?c0)) =
      checkerEvents (checkObjects env ?c0) @ es2"
    using checkAddresses_events_prefix by blast
  have "checkerEvents ?c0 = eventsBeforeChecking f"
    by (simp add: newMoveOnlyChecker_def)
  with e1 e2 show ?thesis
    by (simp add: checkerAfterPhases_def)
qed

section \<open>The entry gates\<close>

text \<open>
  C7. When the move-only feature is disabled for the function's compilation context, the
  pass returns at once: the function is as it was, no diagnostic is emitted, no change is
  reported, and no routine is called. This holds whatever the other attributes of the
  function are.
\<close>

theorem feature_disabled_is_noop:
  assumes "\<not> supportsMoveOnlyTypes (getASTContext f)"
  shows "run env f = Inr \<lparr>finalFn = f, diagnostics = [], invalidations = [], events = []\<rparr>"
  using assms by (simp add: run_def)

theorem feature_disabled_is_noop_witness:
  "run (demoEnv True) ((demoFn [] 1 Private)\<lparr>getASTContext := \<lparr>supportsMoveOnlyTypes = False\<rparr>\<rparr>) =
     Inr \<lparr>finalFn = (demoFn [] 1 Private)\<lparr>getASTContext := \<lparr>supportsMoveOnlyTypes = False\<rparr>\<rparr>,
          diagnostics = [], invalidations = [], events = []\<rparr>"
  using feature_disabled_is_noop
    [of "(demoFn [] 1 Private)\<lparr>getASTContext := \<lparr>supportsMoveOnlyTypes = False\<rparr>\<rparr>" "demoEnv True"]
  by simp

text \<open>
  C8. When the function body was deserialized from an already validated artifact, running
  the pass is a no-op: the function is as it was, no diagnostic is emitted and no change is
  reported. This holds whether or not the feature is enabled and whatever the stage is.
\<close>

theorem deserialized_is_noop:
  assumes "wasDeserializedCanonical f"
  shows "run env f = Inr \<lparr>finalFn = f, diagnostics = [], invalidations = [], events = []\<rparr>"
  using assms by (simp add: run_def)

theorem deserialized_is_noop_witness:
  "run (demoEnv True) ((demoFn [] 1 Private)\<lparr>wasDeserializedCanonical := True\<rparr>) =
     Inr \<lparr>finalFn = (demoFn [] 1 Private)\<lparr>wasDeserializedCanonical := True\<rparr>,
          diagnostics = [], invalidations = [], events = []\<rparr>"
  using deserialized_is_noop
    [of "(demoFn [] 1 Private)\<lparr>wasDeserializedCanonical := True\<rparr>" "demoEnv True"]
  by simp

text \<open>
  C9, as the code has it. For a function that passes the feature gate and the
  deserialization gate. In a build with assertions the pass goes on only when the module is
  in the raw stage: in any other stage the run ends in the assertion failure
  \<open>Should only run on Raw SIL\<close>, the outcome is the failure itself and not a result carrying
  diagnostics, and every run that ends with a result was on a raw module. The assertion
  never fails on a raw module. In a build without assertions the stage is not tested: the
  assertion never fails, and the pass goes on with the delete-if-unused step and what
  follows it, whatever the stage is.
\<close>

theorem raw_stage_is_asserted:
  assumes "supportsMoveOnlyTypes (getASTContext f)" and "\<not> wasDeserializedCanonical f"
  shows "(assertionsEnabled env \<longrightarrow>
            (getStage (getModule f) \<noteq> Raw \<longrightarrow>
               run env f = Inl (AssertionFailure ''Should only run on Raw SIL'')) \<and>
            (\<forall>r. run env f = Inr r \<longrightarrow> getStage (getModule f) = Raw)) \<and>
         (getStage (getModule f) = Raw \<longrightarrow> (\<forall>m. run env f \<noteq> Inl (AssertionFailure m))) \<and>
         (\<not> assertionsEnabled env \<longrightarrow>
            (\<forall>m. run env f \<noteq> Inl (AssertionFailure m)) \<and>
            (takesDeleteFastPath env f \<longrightarrow> run env f = deleteUnusedBody f []) \<and>
            (\<not> takesDeleteFastPath env f \<longrightarrow>
               run env f =
                 Inr (runDiagnostics env f
                        (if hasSemanticsAttr f MOVEONLY_DELETE_IF_UNUSED
                         then [Debug (MarkedToBeDeletedButHasUses (getName f))] else []))))"
  using assms
  by (auto simp: run_def deleteUnusedBody_not_assertion takesDeleteFastPath_def isUnused_def)

theorem raw_stage_is_asserted_witness:
  "assertionsEnabled (demoEnv False) \<and>
   run (demoEnv False)
       ((demoFn [] 1 Private)\<lparr>getModule := \<lparr>getStage = Canonical, isWholeModule = True\<rparr>\<rparr>) =
     Inl (AssertionFailure ''Should only run on Raw SIL'') \<and>
   map_sum id events
     (run ((demoEnv False)\<lparr>assertionsEnabled := False\<rparr>)
        ((demoFn [] 1 Private)\<lparr>getModule := \<lparr>getStage = Canonical, isWholeModule = True\<rparr>\<rparr>)) =
   map_sum id events
     (Inr (runDiagnostics ((demoEnv False)\<lparr>assertionsEnabled := False\<rparr>)
        ((demoFn [] 1 Private)\<lparr>getModule := \<lparr>getStage = Canonical, isWholeModule = True\<rparr>\<rparr>)
        []))"
proof -
  let ?f = "(demoFn [] 1 Private)\<lparr>getModule := \<lparr>getStage = Canonical, isWholeModule = True\<rparr>\<rparr>"
  let ?off = "(demoEnv False)\<lparr>assertionsEnabled := False\<rparr>"
  have h1: "supportsMoveOnlyTypes (getASTContext ?f)" by code_simp
  have h2: "\<not> wasDeserializedCanonical ?f" by code_simp
  have a: "assertionsEnabled (demoEnv False)" by code_simp
  have b: "\<not> assertionsEnabled ?off" by simp
  have s: "getStage (getModule ?f) \<noteq> Raw" by code_simp
  have d: "\<not> takesDeleteFastPath ?off ?f" by code_simp
  have n: "\<not> hasSemanticsAttr ?f MOVEONLY_DELETE_IF_UNUSED" by code_simp
  from raw_stage_is_asserted [OF h1 h2, of "demoEnv False"]
    raw_stage_is_asserted [OF h1 h2, of ?off] a b s d n
  show ?thesis by simp
qed

text \<open>
  The claim as it was stated makes the raw stage a condition of checking in every build. In
  a build without assertions, a function of a module in the canonical stage is checked like
  any other: the searches, the sweep and the cleanup are called, a user diagnostic is
  emitted, and the run ends with a result.
\<close>

theorem raw_stage_not_asserted_counterexample:
  "supportsMoveOnlyTypes
     (getASTContext
        ((demoFn [] 1 Private)\<lparr>getModule := \<lparr>getStage = Canonical, isWholeModule = True\<rparr>\<rparr>)) \<and>
   \<not> wasDeserializedCanonical
        ((demoFn [] 1 Private)\<lparr>getModule := \<lparr>getStage = Canonical, isWholeModule = True\<rparr>\<rparr>) \<and>
   getStage
     (getModule
        ((demoFn [] 1 Private)\<lparr>getModule := \<lparr>getStage = Canonical, isWholeModule = True\<rparr>\<rparr>)) =
     Canonical \<and>
   map_sum id (calls \<circ> events)
     (run ((demoEnv False)\<lparr>assertionsEnabled := False\<rparr>)
        ((demoFn [] 1 Private)\<lparr>getModule := \<lparr>getStage = Canonical, isWholeModule = True\<rparr>\<rparr>)) =
     Inr [SearchForCandidateObjectMarks, SearchForCandidateAddressMarks,
          EmitCheckerMissedCopyErrors, CleanupNonCopyableCopies] \<and>
   map_sum id diagnostics
     (run ((demoEnv False)\<lparr>assertionsEnabled := False\<rparr>)
        ((demoFn [] 1 Private)\<lparr>getModule := \<lparr>getStage = Canonical, isWholeModule = True\<rparr>\<rparr>)) =
     Inr [''checker missed copy'']"
  by code_simp

section \<open>The delete-if-unused directive\<close>

text \<open>
  C1. A function that carries the delete-if-unused directive, has reference count zero and
  is not possibly used externally under its linkage and the whole-module setting: the pass
  leaves it with a single block holding exactly one instruction, an \<^verbatim>\<open>unreachable\<close> at the
  location of the old first instruction; its linkage becomes private when it was shared and
  stays what it was otherwise; every other attribute is kept; a change is reported
  (\<^verbatim>\<open>FunctionBody\<close>); no diagnostic is emitted; no routine of the checker is called. The
  function has passed the entry gates, and it has a body: an entry block with a first
  instruction, which \<^verbatim>\<open>run\<close> reads without a guard.
\<close>

theorem delete_if_unused_replaces_body:
  assumes "passesEntryGates f"
    and "hasSemanticsAttr f MOVEONLY_DELETE_IF_UNUSED"
    and "getRefCount f = 0"
    and "\<not> isPossiblyUsedExternally env (getLinkage f) (isWholeModule (getModule f))"
    and "blocks f = entryBB # bbs" and "instructions entryBB = i # is"
  shows "run env f =
    Inr \<lparr>finalFn = f\<lparr>blocks := [\<lparr>instructions = [\<lparr>kind = UnreachableInst, getLoc = getLoc i\<rparr>]\<rparr>],
                      getLinkage := (if getLinkage f = Shared then Private else getLinkage f)\<rparr>,
         diagnostics = [], invalidations = [FunctionBody],
         events = [Debug (DeletingUnusedFunction (getName f))]\<rparr>"
proof -
  from assms(2-4) have "takesDeleteFastPath env f"
    by (simp add: takesDeleteFastPath_def isUnused_def)
  with assms(1) have "run env f = deleteUnusedBody f []"
    by (rule run_delete_path)
  with assms(5,6) show ?thesis
    by (simp add: deleteUnusedBody_entry)
qed

theorem delete_if_unused_replaces_body_witness:
  "run (demoEnv False) (demoFn [MOVEONLY_DELETE_IF_UNUSED] 0 Shared) =
     Inr \<lparr>finalFn = (demoFn [MOVEONLY_DELETE_IF_UNUSED] 0 Private)
             \<lparr>blocks := [\<lparr>instructions = [\<lparr>kind = UnreachableInst, getLoc = SILLocation 7\<rparr>]\<rparr>]\<rparr>,
          diagnostics = [], invalidations = [FunctionBody],
          events = [Debug (DeletingUnusedFunction ''f'')]\<rparr>"
  using delete_if_unused_replaces_body
    [of "demoFn [MOVEONLY_DELETE_IF_UNUSED] 0 Shared" "demoEnv False"
        "\<lparr>instructions = [inst ''copy_value'' 7, inst ''br'' 8]\<rparr>"
        "[\<lparr>instructions = [inst ''return'' 9]\<rparr>]" "inst ''copy_value'' 7" "[inst ''br'' 8]"]
  by (simp add: passesEntryGates_def hasSemanticsAttr_def demoFn_def demoEnv_def inst_def)

text \<open>
  C6, as the code has it. A function that carries the delete-if-unused directive, has passed
  the entry gates and is not unused (it has a reference, or is possibly used externally):
  the deletion step changes nothing and reports nothing, and the pass goes on with its
  remaining steps on the very same function, the suppress-diagnostics gate first. Without
  the suppress-diagnostics directive normal checking follows, and its first call is the
  search for object candidates. With that directive the pass calls the cleanup alone, emits
  no diagnostic and ends: normal checking does not run.
\<close>

theorem delete_directive_on_used_function_continues:
  assumes "passesEntryGates f"
    and "hasSemanticsAttr f MOVEONLY_DELETE_IF_UNUSED"
    and "\<not> isUnused env f"
  shows "run env f =
           Inr (runDiagnostics env f [Debug (MarkedToBeDeletedButHasUses (getName f))]) \<and>
         (\<not> hasSemanticsAttr f NO_MOVEONLY_DIAGNOSTICS \<longrightarrow>
            reachesNormalChecking env f \<and>
            (\<exists>r es. run env f = Inr r \<and>
               events r = Debug (MarkedToBeDeletedButHasUses (getName f)) #
                          Debug (Visiting (getName f)) #
                          Call SearchForCandidateObjectMarks # es)) \<and>
         (hasSemanticsAttr f NO_MOVEONLY_DIAGNOSTICS \<longrightarrow>
            (\<exists>r. run env f = Inr r \<and>
                 events r = [Debug (MarkedToBeDeletedButHasUses (getName f)),
                             Call CleanupNonCopyableCopies] \<and>
                 diagnostics r = [] \<and>
                 finalFn r = snd (cleanupNonCopyableCopiesAfterEmittingDiagnostic env f)))"
proof -
  from assms(3) have n: "\<not> takesDeleteFastPath env f"
    by (simp add: takesDeleteFastPath_def)
  note c = run_continues [OF assms(1) n]
  have 1: "run env f =
      Inr (runDiagnostics env f [Debug (MarkedToBeDeletedButHasUses (getName f))])"
    using c assms(2) by simp
  have 2: "reachesNormalChecking env f \<and>
            (\<exists>r es. run env f = Inr r \<and>
               events r = Debug (MarkedToBeDeletedButHasUses (getName f)) #
                          Debug (Visiting (getName f)) #
                          Call SearchForCandidateObjectMarks # es)"
    if s: "\<not> hasSemanticsAttr f NO_MOVEONLY_DIAGNOSTICS"
  proof -
    from assms(1) n s have r: "reachesNormalChecking env f"
      by (simp add: reachesNormalChecking_def)
    obtain es where "checkerEvents (checkerAfterPhases env f) =
        eventsBeforeChecking f @ Call SearchForCandidateObjectMarks # es"
      using checkerAfterPhases_events_prefix by blast
    with run_normal_checking [OF r] assms(2) r show ?thesis
      by (simp add: eventsBeforeChecking_def)
  qed
  have 3: "\<exists>r. run env f = Inr r \<and>
                 events r = [Debug (MarkedToBeDeletedButHasUses (getName f)),
                             Call CleanupNonCopyableCopies] \<and>
                 diagnostics r = [] \<and>
                 finalFn r = snd (cleanupNonCopyableCopiesAfterEmittingDiagnostic env f)"
    if "hasSemanticsAttr f NO_MOVEONLY_DIAGNOSTICS"
    using 1 that by (simp add: runDiagnostics_suppressed)
  from 1 2 3 show ?thesis by blast
qed

theorem delete_directive_on_used_function_continues_witness:
  "passesEntryGates (demoFn [MOVEONLY_DELETE_IF_UNUSED] 1 Private) \<and>
   hasSemanticsAttr (demoFn [MOVEONLY_DELETE_IF_UNUSED] 1 Private) MOVEONLY_DELETE_IF_UNUSED \<and>
   \<not> isUnused (demoEnv False) (demoFn [MOVEONLY_DELETE_IF_UNUSED] 1 Private) \<and>
   \<not> hasSemanticsAttr (demoFn [MOVEONLY_DELETE_IF_UNUSED] 1 Private) NO_MOVEONLY_DIAGNOSTICS \<and>
   reachesNormalChecking (demoEnv False) (demoFn [MOVEONLY_DELETE_IF_UNUSED] 1 Private) \<and>
   run (demoEnv False) (demoFn [MOVEONLY_DELETE_IF_UNUSED] 1 Private) =
     Inr (runDiagnostics (demoEnv False) (demoFn [MOVEONLY_DELETE_IF_UNUSED] 1 Private)
            [Debug (MarkedToBeDeletedButHasUses ''f'')])"
proof -
  let ?f = "demoFn [MOVEONLY_DELETE_IF_UNUSED] 1 Private"
  have h1: "passesEntryGates ?f" by code_simp
  have h2: "hasSemanticsAttr ?f MOVEONLY_DELETE_IF_UNUSED" by code_simp
  have h3: "\<not> isUnused (demoEnv False) ?f" by code_simp
  have h4: "\<not> hasSemanticsAttr ?f NO_MOVEONLY_DIAGNOSTICS" by code_simp
  have n: "getName ?f = ''f''" by (simp add: demoFn_def)
  from delete_directive_on_used_function_continues [OF h1 h2 h3] h1 h2 h3 h4 n
  show ?thesis by simp
qed

text \<open>
  The claim as it was stated promises normal checking for every such function. A function
  that carries both directives and has one reference passes the entry gates, is not unused,
  and does not reach normal checking: the only call is the cleanup, and no diagnostic is
  emitted for its copy, where the same function without the suppress-diagnostics directive
  gets one from checking.
\<close>

theorem delete_directive_on_used_function_counterexample:
  "passesEntryGates (demoFn [MOVEONLY_DELETE_IF_UNUSED, NO_MOVEONLY_DIAGNOSTICS] 1 Private) \<and>
   hasSemanticsAttr (demoFn [MOVEONLY_DELETE_IF_UNUSED, NO_MOVEONLY_DIAGNOSTICS] 1 Private)
     MOVEONLY_DELETE_IF_UNUSED \<and>
   \<not> isUnused (demoEnv False)
        (demoFn [MOVEONLY_DELETE_IF_UNUSED, NO_MOVEONLY_DIAGNOSTICS] 1 Private) \<and>
   \<not> reachesNormalChecking (demoEnv False)
        (demoFn [MOVEONLY_DELETE_IF_UNUSED, NO_MOVEONLY_DIAGNOSTICS] 1 Private) \<and>
   map_sum id events
     (run (demoEnv False) (demoFn [MOVEONLY_DELETE_IF_UNUSED, NO_MOVEONLY_DIAGNOSTICS] 1 Private)) =
     Inr [Debug (MarkedToBeDeletedButHasUses ''f''), Call CleanupNonCopyableCopies] \<and>
   map_sum id diagnostics
     (run (demoEnv False) (demoFn [MOVEONLY_DELETE_IF_UNUSED, NO_MOVEONLY_DIAGNOSTICS] 1 Private)) =
     Inr [] \<and>
   map_sum id diagnostics
     (run (demoEnv False) (demoFn [MOVEONLY_DELETE_IF_UNUSED] 1 Private)) =
     Inr [''checker missed copy'']"
  by code_simp

text \<open>
  C10. A function that carries both directives and has passed the entry gates (with a body:
  an entry block with a first instruction): the delete-if-unused gate decides first. When
  the function is unused its body is replaced by the single \<^verbatim>\<open>unreachable\<close>, a change is
  reported and the cleanup of the suppress-diagnostics path is never called. When it is not unused the pass takes the
  suppress-diagnostics path: the cleanup alone runs. So the cleanup runs exactly when the
  function is not unused.
\<close>

theorem delete_gate_precedes_suppress_gate:
  assumes "passesEntryGates f"
    and "hasSemanticsAttr f MOVEONLY_DELETE_IF_UNUSED"
    and "hasSemanticsAttr f NO_MOVEONLY_DIAGNOSTICS"
    and "blocks f = entryBB # bbs" and "instructions entryBB = i # is"
  shows "(isUnused env f \<longrightarrow>
            run env f =
              Inr \<lparr>finalFn =
                     f\<lparr>blocks := [\<lparr>instructions =
                                     [\<lparr>kind = UnreachableInst, getLoc = getLoc i\<rparr>]\<rparr>],
                       getLinkage := (if getLinkage f = Shared then Private else getLinkage f)\<rparr>,
                   diagnostics = [], invalidations = [FunctionBody],
                   events = [Debug (DeletingUnusedFunction (getName f))]\<rparr>) \<and>
         (\<not> isUnused env f \<longrightarrow>
            run env f =
              Inr \<lparr>finalFn = snd (cleanupNonCopyableCopiesAfterEmittingDiagnostic env f),
                   diagnostics = [],
                   invalidations =
                     (if fst (cleanupNonCopyableCopiesAfterEmittingDiagnostic env f)
                      then [Instructions] else []),
                   events = [Debug (MarkedToBeDeletedButHasUses (getName f)),
                             Call CleanupNonCopyableCopies]\<rparr>) \<and>
         (\<forall>r. run env f = Inr r \<longrightarrow>
            (Call CleanupNonCopyableCopies \<in> set (events r) \<longleftrightarrow> \<not> isUnused env f))"
proof (cases "isUnused env f")
  case True
  with assms(2) have "takesDeleteFastPath env f"
    by (simp add: takesDeleteFastPath_def)
  with assms(1) have "run env f = deleteUnusedBody f []"
    by (rule run_delete_path)
  with assms(4,5) True show ?thesis
    by (simp add: deleteUnusedBody_entry)
next
  case False
  then have "\<not> takesDeleteFastPath env f"
    by (simp add: takesDeleteFastPath_def)
  from run_continues [OF assms(1) this] assms(2,3) False show ?thesis
    by (simp add: runDiagnostics_suppressed)
qed

theorem delete_gate_precedes_suppress_gate_witness:
  "(\<exists>r. run (demoEnv False)
             (demoFn [MOVEONLY_DELETE_IF_UNUSED, NO_MOVEONLY_DIAGNOSTICS] 0 Shared) = Inr r \<and>
        blocks (finalFn r) =
          [\<lparr>instructions = [\<lparr>kind = UnreachableInst, getLoc = SILLocation 7\<rparr>]\<rparr>] \<and>
        getLinkage (finalFn r) = Private \<and>
        Call CleanupNonCopyableCopies \<notin> set (events r)) \<and>
   (\<exists>r. run (demoEnv False)
             (demoFn [MOVEONLY_DELETE_IF_UNUSED, NO_MOVEONLY_DIAGNOSTICS] 1 Shared) = Inr r \<and>
        events r = [Debug (MarkedToBeDeletedButHasUses ''f''), Call CleanupNonCopyableCopies] \<and>
        diagnostics r = [])"
proof -
  let ?attrs = "[MOVEONLY_DELETE_IF_UNUSED, NO_MOVEONLY_DIAGNOSTICS]"
  let ?entry = "\<lparr>instructions = [inst ''copy_value'' 7, inst ''br'' 8]\<rparr>"
  let ?rest = "[\<lparr>instructions = [inst ''return'' 9]\<rparr>]"
  have g: "passesEntryGates (demoFn ?attrs n Shared)" for n
    by (simp add: passesEntryGates_def demoFn_def)
  have d: "hasSemanticsAttr (demoFn ?attrs n Shared) MOVEONLY_DELETE_IF_UNUSED" for n
    by (simp add: hasSemanticsAttr_def demoFn_def)
  have s: "hasSemanticsAttr (demoFn ?attrs n Shared) NO_MOVEONLY_DIAGNOSTICS" for n
    by (simp add: hasSemanticsAttr_def demoFn_def)
  have b: "blocks (demoFn ?attrs n Shared) = ?entry # ?rest" for n
    by (simp add: demoFn_def)
  have i: "instructions ?entry = inst ''copy_value'' 7 # [inst ''br'' 8]"
    by simp
  have u0: "isUnused (demoEnv False) (demoFn ?attrs 0 Shared)"
    by code_simp
  have u1: "\<not> isUnused (demoEnv False) (demoFn ?attrs 1 Shared)"
    by code_simp
  have l: "getLoc (inst ''copy_value'' 7) = SILLocation 7"
    by (simp add: inst_def)
  have n: "getName (demoFn ?attrs 1 Shared) = ''f''" "getLinkage (demoFn ?attrs 0 Shared) = Shared"
    by (simp_all add: demoFn_def)
  from delete_gate_precedes_suppress_gate
      [OF g [of 0] d [of 0] s [of 0] b [of 0] i, where env = "demoEnv False"]
    delete_gate_precedes_suppress_gate
      [OF g [of 1] d [of 1] s [of 1] b [of 1] i, where env = "demoEnv False"]
    u0 u1 l n
  show ?thesis
    by simp
qed

section \<open>The suppress-diagnostics directive\<close>

text \<open>
  C3. A function that carries the suppress-diagnostics directive, has passed the entry gates
  and did not take the delete-if-unused fast path: the only routine called is the cleanup
  (no search, no checker, no sweep); the function left behind is the one the cleanup
  returns; no diagnostic is emitted; and a change is reported exactly when the cleanup
  returns true. When the cleanup keeps its contract (it returns true exactly when it changed
  the function), a change is reported exactly when the function was changed.
\<close>

theorem suppress_diagnostics_only_cleans_up:
  assumes "passesEntryGates f" and "\<not> takesDeleteFastPath env f"
    and "hasSemanticsAttr f NO_MOVEONLY_DIAGNOSTICS"
  shows "\<exists>r. run env f = Inr r \<and>
           calls (events r) = [CleanupNonCopyableCopies] \<and>
           finalFn r = snd (cleanupNonCopyableCopiesAfterEmittingDiagnostic env f) \<and>
           diagnostics r = [] \<and>
           (invalidations r \<noteq> [] \<longleftrightarrow>
              fst (cleanupNonCopyableCopiesAfterEmittingDiagnostic env f)) \<and>
           ((\<forall>g. fst (cleanupNonCopyableCopiesAfterEmittingDiagnostic env g) \<longleftrightarrow>
                  snd (cleanupNonCopyableCopiesAfterEmittingDiagnostic env g) \<noteq> g) \<longrightarrow>
            (invalidations r \<noteq> [] \<longleftrightarrow> finalFn r \<noteq> f))"
  using run_continues [OF assms(1,2)] assms(3)
  by (simp add: runDiagnostics_suppressed)

theorem suppress_diagnostics_only_cleans_up_witness:
  "passesEntryGates (demoFn [NO_MOVEONLY_DIAGNOSTICS] 1 Private) \<and>
   \<not> takesDeleteFastPath (demoEnv False) (demoFn [NO_MOVEONLY_DIAGNOSTICS] 1 Private) \<and>
   hasSemanticsAttr (demoFn [NO_MOVEONLY_DIAGNOSTICS] 1 Private) NO_MOVEONLY_DIAGNOSTICS \<and>
   (\<forall>g. fst (cleanupNonCopyableCopiesAfterEmittingDiagnostic (demoEnv False) g) =
          (snd (cleanupNonCopyableCopiesAfterEmittingDiagnostic (demoEnv False) g) \<noteq> g)) \<and>
   (\<exists>r. run (demoEnv False) (demoFn [NO_MOVEONLY_DIAGNOSTICS] 1 Private) = Inr r \<and>
        calls (events r) = [CleanupNonCopyableCopies] \<and>
        diagnostics r = [] \<and> invalidations r \<noteq> [] \<and>
        finalFn r \<noteq> demoFn [NO_MOVEONLY_DIAGNOSTICS] 1 Private)"
proof -
  let ?f = "demoFn [NO_MOVEONLY_DIAGNOSTICS] 1 Private"
  have h1: "passesEntryGates ?f" by code_simp
  have h2: "\<not> takesDeleteFastPath (demoEnv False) ?f" by code_simp
  have h3: "hasSemanticsAttr ?f NO_MOVEONLY_DIAGNOSTICS" by code_simp
  have k: "\<forall>g. fst (cleanupNonCopyableCopiesAfterEmittingDiagnostic (demoEnv False) g) =
          (snd (cleanupNonCopyableCopiesAfterEmittingDiagnostic (demoEnv False) g) \<noteq> g)"
    by (simp add: demoEnv_def demoCleanup_def Let_def)
  have g: "fst (cleanupNonCopyableCopiesAfterEmittingDiagnostic (demoEnv False) ?f)"
    by code_simp
  from suppress_diagnostics_only_cleans_up [OF h1 h2 h3] k g h1 h2 h3 show ?thesis
    by auto
qed

section \<open>Normal checking\<close>

text \<open>
  C2. For a function that reaches normal checking, the sweep for missed copies is called
  exactly when the emitter, fresh at the start of checking, holds no diagnostic after the
  object phase and the address phase. The diagnostics the user gets are then those the sweep
  leaves in the emitter; otherwise they are those of the two phases.
\<close>

theorem fallback_sweep_iff_no_diagnostics:
  assumes "reachesNormalChecking env f"
  shows "\<exists>r. run env f = Inr r \<and>
           (Call EmitCheckerMissedCopyErrors \<in> set (events r) \<longleftrightarrow>
              getDiagnosticCount (diagnosticEmitter (checkerAfterPhases env f)) = 0) \<and>
           diagnostics r =
             (if getDiagnosticCount (diagnosticEmitter (checkerAfterPhases env f)) = 0
              then emitted (snd (emitCheckerMissedCopyOfNonCopyableTypeErrors env
                                   (fn (checkerAfterPhases env f))
                                   (diagnosticEmitter (checkerAfterPhases env f))))
              else emitted (diagnosticEmitter (checkerAfterPhases env f)))"
  using run_normal_checking [OF assms]
    checkerAfterPhases_no_late_call [of "Call EmitCheckerMissedCopyErrors" env f]
  by (simp add: emittedDiagnostic_def)

theorem fallback_sweep_iff_no_diagnostics_witness:
  "reachesNormalChecking (demoEnv False) (demoFn [] 1 Private) \<and>
   getDiagnosticCount
     (diagnosticEmitter (checkerAfterPhases (demoEnv False) (demoFn [] 1 Private))) = 0 \<and>
   (\<exists>r. run (demoEnv False) (demoFn [] 1 Private) = Inr r \<and>
        Call EmitCheckerMissedCopyErrors \<in> set (events r) \<and>
        diagnostics r = [''checker missed copy''])"
proof -
  have h: "reachesNormalChecking (demoEnv False) (demoFn [] 1 Private)"
    by code_simp
  have c: "getDiagnosticCount
     (diagnosticEmitter (checkerAfterPhases (demoEnv False) (demoFn [] 1 Private))) = 0"
    by code_simp
  have d: "emitted (snd (emitCheckerMissedCopyOfNonCopyableTypeErrors (demoEnv False)
             (fn (checkerAfterPhases (demoEnv False) (demoFn [] 1 Private)))
             (diagnosticEmitter (checkerAfterPhases (demoEnv False) (demoFn [] 1 Private))))) =
           [''checker missed copy'']"
    by code_simp
  from fallback_sweep_iff_no_diagnostics [OF h] c d h show ?thesis
    by simp
qed

text \<open>
  C5. For a function that reaches normal checking, the cleanup is called once, as the last
  call, after both phases (and after the sweep, when the sweep runs), whether or not a
  diagnostic was emitted; the function left behind is the one the cleanup returns; and a
  change is reported exactly when the change flag accumulated by the phases or the boolean
  the cleanup returns is true.
\<close>

theorem cleanup_runs_unconditionally:
  assumes "reachesNormalChecking env f"
  shows "\<exists>r. run env f = Inr r \<and>
           events r =
             checkerEvents (checkerAfterPhases env f) @
             (if getDiagnosticCount (diagnosticEmitter (checkerAfterPhases env f)) = 0
              then [Call EmitCheckerMissedCopyErrors] else []) @
             [Call CleanupNonCopyableCopies] \<and>
           Call CleanupNonCopyableCopies \<notin> set (checkerEvents (checkerAfterPhases env f)) \<and>
           finalFn r =
             snd (cleanupNonCopyableCopiesAfterEmittingDiagnostic env (fnBeforeCleanup env f)) \<and>
           invalidations r =
             (if madeChange (checkerAfterPhases env f) \<or>
                 fst (cleanupNonCopyableCopiesAfterEmittingDiagnostic env
                        (fnBeforeCleanup env f))
              then [Instructions] else [])"
  using run_normal_checking [OF assms]
    checkerAfterPhases_no_late_call [of "Call CleanupNonCopyableCopies" env f]
  by (simp add: emittedDiagnostic_def)

theorem cleanup_runs_unconditionally_witness:
  "reachesNormalChecking (demoEnv False) copyAfterMarkFn \<and>
   getDiagnosticCount
     (diagnosticEmitter (checkerAfterPhases (demoEnv False) copyAfterMarkFn)) = 1 \<and>
   (\<exists>r. run (demoEnv False) copyAfterMarkFn = Inr r \<and>
        calls (events r) =
          [SearchForCandidateObjectMarks, ObjectCheckerCheck, SearchForCandidateAddressMarks,
           CleanupNonCopyableCopies] \<and>
        finalFn r = snd (demoCleanup copyAfterMarkFn) \<and>
        invalidations r = [Instructions])"
proof -
  have h: "reachesNormalChecking (demoEnv False) copyAfterMarkFn"
    by code_simp
  have c: "getDiagnosticCount
     (diagnosticEmitter (checkerAfterPhases (demoEnv False) copyAfterMarkFn)) = 1"
    by code_simp
  have e: "calls (checkerEvents (checkerAfterPhases (demoEnv False) copyAfterMarkFn)) =
      [SearchForCandidateObjectMarks, ObjectCheckerCheck, SearchForCandidateAddressMarks]"
    by code_simp
  have f: "fnBeforeCleanup (demoEnv False) copyAfterMarkFn = copyAfterMarkFn"
    by code_simp
  have g: "fst (demoCleanup copyAfterMarkFn)"
    by code_simp
  have k: "cleanupNonCopyableCopiesAfterEmittingDiagnostic (demoEnv False) = demoCleanup"
    by (simp add: demoEnv_def)
  have a: "calls (xs @ ys) = calls xs @ calls ys" for xs ys
    by (induction xs rule: calls.induct) simp_all
  from cleanup_runs_unconditionally [OF h] c e f g k h show ?thesis
    by (auto simp: a)
qed

section \<open>The booleans the candidate searches return\<close>

lemma checkAddresses_address_flag:
  "checkAddresses (withAddressSearchFlag b env) c = checkAddresses env c"
  by (simp add: checkAddresses_def withAddressSearchFlag_def Let_def split: prod.splits)

lemma checkObjects_address_flag:
  "checkObjects (withAddressSearchFlag b env) c = checkObjects env c"
  by (simp add: checkObjects_def withAddressSearchFlag_def Let_def split: prod.splits)

lemma runDiagnostics_address_flag:
  "runDiagnostics (withAddressSearchFlag b env) f evs = runDiagnostics env f evs"
proof -
  have "newMoveOnlyChecker (withAddressSearchFlag b env) f
          (getDominanceInfo (withAddressSearchFlag b env) f)
          (getPostOrderAnalysis (withAddressSearchFlag b env)) es =
        newMoveOnlyChecker env f (getDominanceInfo env f) (getPostOrderAnalysis env) es" for es
    by (simp add: newMoveOnlyChecker_def withAddressSearchFlag_def)
  moreover have "emitCheckerMissedCopyOfNonCopyableTypeErrors (withAddressSearchFlag b env) =
      emitCheckerMissedCopyOfNonCopyableTypeErrors env"
    and "cleanupNonCopyableCopiesAfterEmittingDiagnostic (withAddressSearchFlag b env) =
      cleanupNonCopyableCopiesAfterEmittingDiagnostic env"
    by (simp_all add: withAddressSearchFlag_def)
  ultimately show ?thesis
    by (simp add: runDiagnostics_def checkAddresses_address_flag checkObjects_address_flag
        Let_def split: prod.splits)
qed

lemma run_address_flag: "run (withAddressSearchFlag b env) f = run env f"
proof -
  have "isPossiblyUsedExternally (withAddressSearchFlag b env) = isPossiblyUsedExternally env"
    and "assertionsEnabled (withAddressSearchFlag b env) = assertionsEnabled env"
    by (simp_all add: withAddressSearchFlag_def)
  then show ?thesis
    by (simp add: run_def runDiagnostics_address_flag)
qed

text \<open>Two runs of the object phase that differ at most in \<open>madeChange\<close>.\<close>

lemma checkObjects_object_flag:
  "(checkObjects (withObjectSearchFlag b env) c)\<lparr>madeChange := m\<rparr> =
   (checkObjects env c)\<lparr>madeChange := m\<rparr>"
  by (simp add: checkObjects_def withObjectSearchFlag_def Let_def split: prod.splits)

lemma checkObjects_object_flag_True:
  "madeChange (checkObjects (withObjectSearchFlag True env) c)"
  by (simp add: checkObjects_def withObjectSearchFlag_def Let_def split: prod.splits)

lemma checkAddresses_madeChange_mono:
  "madeChange c \<Longrightarrow> madeChange (checkAddresses env c)"
  by (simp add: checkAddresses_def Let_def split: prod.splits)

lemma checkAddresses_upto_madeChange:
  assumes "c1\<lparr>madeChange := m\<rparr> = c2\<lparr>madeChange := m\<rparr>"
  shows "(checkAddresses (withObjectSearchFlag b env) c1)\<lparr>madeChange := m'\<rparr> =
         (checkAddresses env c2)\<lparr>madeChange := m'\<rparr>"
proof -
  from assms have "c1 = c2\<lparr>madeChange := madeChange c1\<rparr>"
    by (cases c1, cases c2) simp
  then obtain x where "c1 = c2\<lparr>madeChange := x\<rparr>" ..
  then show ?thesis
    by (simp add: checkAddresses_def withObjectSearchFlag_def Let_def split: prod.splits)
qed

lemma checkerAfterPhases_object_flag:
  "(checkerAfterPhases (withObjectSearchFlag b env) f)\<lparr>madeChange := m\<rparr> =
   (checkerAfterPhases env f)\<lparr>madeChange := m\<rparr>"
proof -
  have "newMoveOnlyChecker (withObjectSearchFlag b env) f
          (getDominanceInfo (withObjectSearchFlag b env) f)
          (getPostOrderAnalysis (withObjectSearchFlag b env)) es =
        newMoveOnlyChecker env f (getDominanceInfo env f) (getPostOrderAnalysis env) es" for es
    by (simp add: newMoveOnlyChecker_def withObjectSearchFlag_def)
  then show ?thesis
    unfolding checkerAfterPhases_def
    by (simp add: checkAddresses_upto_madeChange [OF checkObjects_object_flag])
qed

lemma checkerAfterPhases_object_flag_fields:
  "fn (checkerAfterPhases (withObjectSearchFlag b env) f) = fn (checkerAfterPhases env f)"
  "diagnosticEmitter (checkerAfterPhases (withObjectSearchFlag b env) f) =
     diagnosticEmitter (checkerAfterPhases env f)"
  "checkerEvents (checkerAfterPhases (withObjectSearchFlag b env) f) =
     checkerEvents (checkerAfterPhases env f)"
proof -
  have eq: "(checkerAfterPhases (withObjectSearchFlag b env) f)\<lparr>madeChange := False\<rparr> =
      (checkerAfterPhases env f)\<lparr>madeChange := False\<rparr>"
    by (rule checkerAfterPhases_object_flag)
  from arg_cong [where f = fn, OF eq]
  show "fn (checkerAfterPhases (withObjectSearchFlag b env) f) = fn (checkerAfterPhases env f)"
    by simp
  from arg_cong [where f = diagnosticEmitter, OF eq]
  show "diagnosticEmitter (checkerAfterPhases (withObjectSearchFlag b env) f) =
     diagnosticEmitter (checkerAfterPhases env f)"
    by simp
  from arg_cong [where f = checkerEvents, OF eq]
  show "checkerEvents (checkerAfterPhases (withObjectSearchFlag b env) f) =
     checkerEvents (checkerAfterPhases env f)"
    by simp
qed

lemma checkerAfterPhases_object_flag_True:
  "madeChange (checkerAfterPhases (withObjectSearchFlag True env) f)"
  by (simp add: checkerAfterPhases_def checkAddresses_madeChange_mono
      checkObjects_object_flag_True)

lemma reachesNormalChecking_object_flag:
  "reachesNormalChecking (withObjectSearchFlag b env) f = reachesNormalChecking env f"
  by (simp add: reachesNormalChecking_def takesDeleteFastPath_def isUnused_def
      withObjectSearchFlag_def)

lemma fnBeforeCleanup_object_flag:
  "fnBeforeCleanup (withObjectSearchFlag b env) f = fnBeforeCleanup env f"
proof -
  have "emitCheckerMissedCopyOfNonCopyableTypeErrors (withObjectSearchFlag b env) =
      emitCheckerMissedCopyOfNonCopyableTypeErrors env"
    by (simp add: withObjectSearchFlag_def)
  then show ?thesis
    by (simp add: fnBeforeCleanup_def checkerAfterPhases_object_flag_fields Let_def)
qed

text \<open>How the boolean of the object search reaches \<open>madeChange\<close>.\<close>

lemma checkObjects_object_flag_or:
  "madeChange (checkObjects (withObjectSearchFlag b env) c) =
     (b \<or> madeChange (checkObjects (withObjectSearchFlag False env) c))"
  by (auto simp: checkObjects_def withObjectSearchFlag_def Let_def split: prod.splits)

lemma checkAddresses_madeChange_or:
  assumes "c1\<lparr>madeChange := m\<rparr> = c2\<lparr>madeChange := m\<rparr>"
    and "madeChange c1 = (b \<or> madeChange c2)"
  shows "madeChange (checkAddresses (withObjectSearchFlag x env) c1) =
           (b \<or> madeChange (checkAddresses (withObjectSearchFlag y env) c2))"
proof -
  from assms(1) have "c1 = c2\<lparr>madeChange := madeChange c1\<rparr>"
    by (cases c1, cases c2) simp
  with assms(2) have "c1 = c2\<lparr>madeChange := (b \<or> madeChange c2)\<rparr>"
    by simp
  then obtain z where "c1 = c2\<lparr>madeChange := z\<rparr>" and "z = (b \<or> madeChange c2)"
    by blast
  then show ?thesis
    by (auto simp: checkAddresses_def withObjectSearchFlag_def Let_def split: prod.splits)
qed

lemma checkObjects_object_flag_both:
  "(checkObjects (withObjectSearchFlag b env) c)\<lparr>madeChange := m\<rparr> =
   (checkObjects (withObjectSearchFlag b' env) c)\<lparr>madeChange := m\<rparr>"
  by (simp add: checkObjects_def withObjectSearchFlag_def Let_def split: prod.splits)

lemma checkerAfterPhases_object_flag_or:
  "madeChange (checkerAfterPhases (withObjectSearchFlag b env) f) =
     (b \<or> madeChange (checkerAfterPhases (withObjectSearchFlag False env) f))"
proof -
  have n: "newMoveOnlyChecker (withObjectSearchFlag x env) f
          (getDominanceInfo (withObjectSearchFlag x env) f)
          (getPostOrderAnalysis (withObjectSearchFlag x env)) es =
        newMoveOnlyChecker env f (getDominanceInfo env f) (getPostOrderAnalysis env) es"
    for x es
    by (simp add: newMoveOnlyChecker_def withObjectSearchFlag_def)
  show ?thesis
    unfolding checkerAfterPhases_def n
    by (rule checkAddresses_madeChange_or
        [OF checkObjects_object_flag_both checkObjects_object_flag_or])
qed

text \<open>With checkers that return false, the phases leave \<open>madeChange\<close> to the object search.\<close>

lemma checkObjects_quiet:
  assumes "\<forall>dt po wl g de al. \<not> fst (objectCheckerCheck env dt po wl g de al)"
  shows "madeChange (checkObjects (withObjectSearchFlag False env) c) = madeChange c"
  using assms
  by (auto simp: checkObjects_def withObjectSearchFlag_def Let_def split: prod.splits)
    (metis fst_conv)+

lemma checkAddresses_quiet:
  assumes "\<forall>dt po wl g de al. \<not> fst (addressCheckerCheck env dt po wl g de al)"
  shows "madeChange (checkAddresses (withObjectSearchFlag False env) c) = madeChange c"
  using assms
  by (auto simp: checkAddresses_def withObjectSearchFlag_def Let_def split: prod.splits)
    (metis fst_conv)+

lemma checkerAfterPhases_quiet:
  assumes "\<forall>dt po wl g de al. \<not> fst (objectCheckerCheck env dt po wl g de al)"
    and "\<forall>dt po wl g de al. \<not> fst (addressCheckerCheck env dt po wl g de al)"
  shows "\<not> madeChange (checkerAfterPhases (withObjectSearchFlag False env) f)"
  by (simp add: checkerAfterPhases_def checkAddresses_quiet [OF assms(2)]
      checkObjects_quiet [OF assms(1)] newMoveOnlyChecker_def)

text \<open>
  C4, as the code has it. For a function that reaches normal checking: the boolean the
  address search returns is dropped (the whole outcome of the pass is the same whatever it
  is); the boolean the object search returns changes neither the function left behind, nor
  the diagnostics, nor the calls made, nor the debug lines printed (the line about a
  diagnostic during the search is computed from the emitter's count), but it is OR-ed into
  the change flag: with the boolean \<open>b\<close> a change is reported exactly when \<open>b\<close> is true or a
  change is reported with the boolean false. And with the boolean false, checkers that
  return false and a cleanup that returns false, no change is reported: so with such
  checkers and cleanup a change is reported exactly when the boolean is true.
\<close>

theorem search_flags_and_the_change_report:
  assumes "reachesNormalChecking env f"
  shows "run (withAddressSearchFlag b env) f = run env f \<and>
         (\<exists>r r'. run env f = Inr r \<and> run (withObjectSearchFlag b env) f = Inr r' \<and>
            finalFn r' = finalFn r \<and> diagnostics r' = diagnostics r \<and>
            events r' = events r) \<and>
         (\<exists>r. run (withObjectSearchFlag True env) f = Inr r \<and>
              invalidations r = [Instructions]) \<and>
         (\<exists>r0 r. run (withObjectSearchFlag False env) f = Inr r0 \<and>
              run (withObjectSearchFlag b env) f = Inr r \<and>
              (invalidations r \<noteq> [] \<longleftrightarrow> b \<or> invalidations r0 \<noteq> []) \<and>
              invalidations r = (if b \<or> invalidations r0 \<noteq> [] then [Instructions] else []) \<and>
              ((\<forall>dt po wl g de al. \<not> fst (objectCheckerCheck env dt po wl g de al)) \<and>
               (\<forall>dt po wl g de al. \<not> fst (addressCheckerCheck env dt po wl g de al)) \<and>
               (\<forall>g. \<not> fst (cleanupNonCopyableCopiesAfterEmittingDiagnostic env g)) \<longrightarrow>
               invalidations r0 = [] \<and> (invalidations r \<noteq> [] \<longleftrightarrow> b)))"
proof -
  have e: "emitCheckerMissedCopyOfNonCopyableTypeErrors (withObjectSearchFlag x env) =
      emitCheckerMissedCopyOfNonCopyableTypeErrors env"
    and c: "cleanupNonCopyableCopiesAfterEmittingDiagnostic (withObjectSearchFlag x env) =
      cleanupNonCopyableCopiesAfterEmittingDiagnostic env" for x
    by (simp_all add: withObjectSearchFlag_def)
  have n: "reachesNormalChecking (withObjectSearchFlag x env) f" for x
    using assms by (simp add: reachesNormalChecking_object_flag)
  note r = run_normal_checking [OF assms] and rx = run_normal_checking [OF n]
  have 1: "run (withAddressSearchFlag b env) f = run env f"
    by (rule run_address_flag)
  have 2: "\<exists>r r'. run env f = Inr r \<and> run (withObjectSearchFlag b env) f = Inr r' \<and>
            finalFn r' = finalFn r \<and> diagnostics r' = diagnostics r \<and>
            events r' = events r"
    using r rx [of b]
    by (simp add: e c checkerAfterPhases_object_flag_fields fnBeforeCleanup_object_flag)
  have 3: "\<exists>r. run (withObjectSearchFlag True env) f = Inr r \<and>
              invalidations r = [Instructions]"
    using rx [of True] by (simp add: checkerAfterPhases_object_flag_True)
  have q: "\<not> madeChange (checkerAfterPhases (withObjectSearchFlag False env) f)"
    if "\<forall>dt po wl g de al. \<not> fst (objectCheckerCheck env dt po wl g de al)"
      and "\<forall>dt po wl g de al. \<not> fst (addressCheckerCheck env dt po wl g de al)"
    using that by (rule checkerAfterPhases_quiet)
  have 4: "\<exists>r0 r. run (withObjectSearchFlag False env) f = Inr r0 \<and>
              run (withObjectSearchFlag b env) f = Inr r \<and>
              (invalidations r \<noteq> [] \<longleftrightarrow> b \<or> invalidations r0 \<noteq> []) \<and>
              invalidations r = (if b \<or> invalidations r0 \<noteq> [] then [Instructions] else []) \<and>
              ((\<forall>dt po wl g de al. \<not> fst (objectCheckerCheck env dt po wl g de al)) \<and>
               (\<forall>dt po wl g de al. \<not> fst (addressCheckerCheck env dt po wl g de al)) \<and>
               (\<forall>g. \<not> fst (cleanupNonCopyableCopiesAfterEmittingDiagnostic env g)) \<longrightarrow>
               invalidations r0 = [] \<and> (invalidations r \<noteq> [] \<longleftrightarrow> b))"
    using rx [of False] rx [of b] checkerAfterPhases_object_flag_or [of b env f] q
    by (auto simp: c fnBeforeCleanup_object_flag)
  from 1 2 3 4 show ?thesis by blast
qed

theorem search_flags_and_the_change_report_witness:
  "reachesNormalChecking quietEnv cleanFn \<and>
   (\<forall>dt po wl g de al. \<not> fst (objectCheckerCheck quietEnv dt po wl g de al)) \<and>
   (\<forall>dt po wl g de al. \<not> fst (addressCheckerCheck quietEnv dt po wl g de al)) \<and>
   (\<forall>g. \<not> fst (cleanupNonCopyableCopiesAfterEmittingDiagnostic quietEnv g)) \<and>
   run (withAddressSearchFlag True quietEnv) cleanFn = run quietEnv cleanFn \<and>
   map_sum id events (run (withObjectSearchFlag True quietEnv) cleanFn) =
     map_sum id events (run quietEnv cleanFn) \<and>
   map_sum id invalidations (run (withObjectSearchFlag True quietEnv) cleanFn) =
     Inr [Instructions] \<and>
   map_sum id invalidations (run (withObjectSearchFlag False quietEnv) cleanFn) = Inr []"
proof -
  have h: "reachesNormalChecking quietEnv cleanFn"
    by code_simp
  have q1: "\<forall>dt po wl g de al. \<not> fst (objectCheckerCheck quietEnv dt po wl g de al)"
    and q2: "\<forall>dt po wl g de al. \<not> fst (addressCheckerCheck quietEnv dt po wl g de al)"
    and q3: "\<forall>g. \<not> fst (cleanupNonCopyableCopiesAfterEmittingDiagnostic quietEnv g)"
    by (simp_all add: quietEnv_def quietCleanup_def demoEnv_def demoCheck_def)
  from search_flags_and_the_change_report [OF h, of True] h q1 q2 q3 show ?thesis
    by auto
qed

text \<open>
  The claim as it was stated keeps both booleans away from the change report. On a function
  with nothing to diagnose and nothing to clean up, an object search that emits a diagnostic,
  changes nothing and returns true makes the pass report a change; with the boolean alone
  replaced by false, no change is reported. The function is left as it was in both runs.
\<close>

theorem search_flag_reaches_change_report_counterexample:
  "reachesNormalChecking (demoEnv True) cleanFn \<and>
   map_sum id invalidations (run (demoEnv True) cleanFn) = Inr [Instructions] \<and>
   map_sum id invalidations (run (withObjectSearchFlag False (demoEnv True)) cleanFn) = Inr [] \<and>
   map_sum id finalFn (run (demoEnv True) cleanFn) = Inr cleanFn \<and>
   map_sum id finalFn (run (withObjectSearchFlag False (demoEnv True)) cleanFn) = Inr cleanFn \<and>
   map_sum id diagnostics (run (demoEnv True) cleanFn) = Inr [''unanalyzable mark''] \<and>
   map_sum id diagnostics (run (withObjectSearchFlag False (demoEnv True)) cleanFn) =
     Inr [''unanalyzable mark'']"
  by code_simp

end
